theory Spec2Isabelle
  imports Main "HOL-Library.Sublist"
begin

section \<open>Python strings and byte strings\<close>

text \<open>
  A Python \<open>str\<close> and a Python \<open>bytes\<close> value are both modelled as a \<open>string\<close> (a list of
  8-bit characters). For \<open>bytes\<close> the model is exact. For \<open>str\<close> it covers text whose code
  points are below 128: \<open>lower\<close>, \<open>isdigit\<close> and \<open>strip\<close> are the ASCII tables of the
  Python methods, and every other character is left alone.
\<close>

definition backslash :: char where
  "backslash = CHR 0x5C"

definition dquote :: char where
  "dquote = CHR 0x22"

definition newline :: char where
  "newline = CHR 0x0A"

definition lower_char :: "char \<Rightarrow> char" where
  "lower_char c =
     (case map_of (zip ''ABCDEFGHIJKLMNOPQRSTUVWXYZ'' ''abcdefghijklmnopqrstuvwxyz'') c of
        Some d \<Rightarrow> d
      | None \<Rightarrow> c)"

definition lower :: "string \<Rightarrow> string" where
  "lower s = map lower_char s"

definition is_digit :: "char \<Rightarrow> bool" where
  "is_digit c = (c \<in> set ''0123456789'')"

text \<open>\<open>s.isdigit()\<close>: every character is a digit and there is at least one.\<close>

definition isdigit :: "string \<Rightarrow> bool" where
  "isdigit s = (s \<noteq> [] \<and> list_all is_digit s)"

text \<open>The ASCII characters for which \<open>str.isspace\<close> holds: 9 to 13, 28 to 32.\<close>

definition is_space :: "char \<Rightarrow> bool" where
  "is_space c =
     (c \<in> set [CHR 0x09, CHR 0x0A, CHR 0x0B, CHR 0x0C, CHR 0x0D,
               CHR 0x1C, CHR 0x1D, CHR 0x1E, CHR 0x1F, CHR 0x20])"

definition strip :: "string \<Rightarrow> string" where
  "strip s = rev (dropWhile is_space (rev (dropWhile is_space s)))"

text \<open>\<open>sub in s\<close> on strings: \<open>sub\<close> occurs in \<open>s\<close> as a contiguous block.\<close>

fun str_contains :: "string \<Rightarrow> string \<Rightarrow> bool" where
  "str_contains [] sub = (sub = [])"
| "str_contains (c # cs) sub = (prefix sub (c # cs) \<or> str_contains cs sub)"

definition startswith :: "string \<Rightarrow> string \<Rightarrow> bool" where
  "startswith s p = prefix p s"

definition endswith :: "string \<Rightarrow> string \<Rightarrow> bool" where
  "endswith s p = suffix p s"

text \<open>\<open>s.split(c)\<close> for a one-character separator: always at least one part.\<close>

fun split_on :: "char \<Rightarrow> string \<Rightarrow> string list" where
  "split_on sep [] = [[]]"
| "split_on sep (c # cs) =
     (if c = sep then [] # split_on sep cs
      else (case split_on sep cs of
              [] \<Rightarrow> [[c]]
            | p # ps \<Rightarrow> (c # p) # ps))"

section \<open>Paths (\<open>posixpath\<close>)\<close>

text \<open>
  The functions of \<open>os.path\<close> are those of \<open>posixpath\<close>: the slash is the only separator.
  \<open>os.path.basename\<close>: the part after the last slash.
\<close>

definition basename :: "string \<Rightarrow> string" where
  "basename p = rev (takeWhile (\<lambda>c. c \<noteq> CHR ''/'') (rev p))"

text \<open>
  \<open>os.path.dirname\<close>: the part up to and including the last slash, with trailing slashes
  removed unless it consists of slashes only.
\<close>

definition dirname :: "string \<Rightarrow> string" where
  "dirname p =
     (let head = rev (dropWhile (\<lambda>c. c \<noteq> CHR ''/'') (rev p))
      in if head \<noteq> [] \<and> \<not> list_all (\<lambda>c. c = CHR ''/'') head
         then rev (dropWhile (\<lambda>c. c = CHR ''/'') (rev head))
         else head)"

text \<open>\<open>os.path.join(a, b)\<close> for two components.\<close>

definition path_join :: "string \<Rightarrow> string \<Rightarrow> string" where
  "path_join a b =
     (if startswith b ''/'' then b
      else if a = [] \<or> endswith a ''/'' then a @ b
      else a @ ''/'' @ b)"

text \<open>
  \<open>os.path.splitext(p)[1]\<close>: from the last dot of the basename on, provided some character
  of the basename before that dot is not a dot; empty otherwise.
\<close>

definition splitext_ext :: "string \<Rightarrow> string" where
  "splitext_ext p =
     (let b = basename p;
          tail = rev (takeWhile (\<lambda>c. c \<noteq> CHR ''.'') (rev b));
          stem = rev (drop 1 (dropWhile (\<lambda>c. c \<noteq> CHR ''.'') (rev b)))
      in if CHR ''.'' \<in> set b \<and> \<not> list_all (\<lambda>c. c = CHR ''.'') stem
         then CHR ''.'' # tail
         else [])"

section \<open>Regular expressions\<close>

text \<open>
  The patterns of the program use literal text, \<open>\d+\<close> and \<open>.*\<close> only. A pattern is a
  sequence of such atoms; \<open>match_here\<close> says whether it matches at the start of a string
  (trying every length a repetition can take), \<open>re_search\<close> whether it matches anywhere,
  which is the truth value of \<open>re.search(pattern, s)\<close>.
\<close>

datatype rx_atom = Lit string | Digits | AnyStar

fun match_here :: "rx_atom list \<Rightarrow> string \<Rightarrow> bool" where
  "match_here [] s = True"
| "match_here (Lit l # rs) s = (prefix l s \<and> match_here rs (drop (length l) s))"
| "match_here (Digits # rs) s =
     list_ex (\<lambda>n. match_here rs (drop n s)) [1..<Suc (length (takeWhile is_digit s))]"
| "match_here (AnyStar # rs) s =
     list_ex (\<lambda>n. match_here rs (drop n s))
       [0..<Suc (length (takeWhile (\<lambda>c. c \<noteq> newline) s))]"

definition re_search :: "rx_atom list \<Rightarrow> string \<Rightarrow> bool" where
  "re_search p s = list_ex (\<lambda>n. match_here p (drop n s)) [0..<Suc (length s)]"

text \<open>\<open>re.sub(r'[\\/*?:"<>|]', "", s)\<close>: delete the characters of the class.\<close>

definition illegal_chars :: "char list" where
  "illegal_chars =
     [backslash, CHR ''/'', CHR ''*'', CHR ''?'', CHR '':'', dquote, CHR ''<'', CHR ''>'', CHR ''|'']"

definition sanitize :: "string \<Rightarrow> string" where
  "sanitize s = filter (\<lambda>c. c \<notin> set illegal_chars) s"

section \<open>Link classifier: \<open>is_downloadable_file\<close>\<close>

definition downloadable_extensions :: "string list" where
  "downloadable_extensions =
     [''.pdf'', ''.doc'', ''.docx'', ''.ppt'', ''.pptx'', ''.xls'', ''.xlsx'',
      ''.zip'', ''.rar'', ''.7z'', ''.tar'', ''.gz'',
      ''.jpg'', ''.jpeg'', ''.png'', ''.gif'', ''.bmp'', ''.svg'',
      ''.mp3'', ''.mp4'', ''.avi'', ''.mov'', ''.wav'',
      ''.txt'', ''.csv'', ''.json'', ''.xml'', ''.html'', ''.css'', ''.js'',
      ''.py'', ''.java'', ''.cpp'', ''.c'', ''.h'',
      ''.sql'', ''.db'', ''.sqlite'', ''.rtf'', ''.odt'', ''.ods'', ''.odp'']"

definition canvas_file_patterns :: "rx_atom list list" where
  "canvas_file_patterns =
     [[Lit ''/courses/'', Digits, Lit ''/files/'', Digits],
      [Lit ''/files/'', Digits],
      [Lit ''/download?download_frd=1''],
      [Lit ''/courses/'', Digits, Lit ''/file_contents/''],
      [Lit ''/users/'', Digits, Lit ''/files/'', Digits],
      [Lit ''instructure.com'', AnyStar, Lit ''files'']]"

definition file_indicators :: "string list" where
  "file_indicators =
     [''download'', ''attachment'', ''file'', ''.pdf'', ''.doc'', ''.ppt'', ''.xls'',
      ''handout'', ''worksheet'', ''assignment'', ''syllabus'', ''slides'']"

definition non_file_indicators :: "string list" where
  "non_file_indicators =
     [''http://www.'', ''https://www.'', ''wiki'', ''page'', ''module'',
      ''discussion'', ''assignment submission'', ''grade'', ''course'']"

text \<open>
  The extension test of the first loop, for one extension. The source iterates over a set;
  the loop only asks whether some member passes, so the order does not matter.
\<close>

definition has_extension :: "string \<Rightarrow> string \<Rightarrow> bool" where
  "has_extension url_lower ext =
     (endswith url_lower ext
      \<or> str_contains url_lower (ext @ ''?'')
      \<or> str_contains url_lower (ext @ ''#''))"

definition is_downloadable_file :: "string \<Rightarrow> string \<Rightarrow> bool" where
  "is_downloadable_file url text =
     (let url_lower = lower url in
      if list_ex (has_extension url_lower) downloadable_extensions then True
      else if list_ex (\<lambda>pattern. re_search pattern url) canvas_file_patterns then True
      else
        (let text_lower = lower text in
         if list_ex (str_contains text_lower) file_indicators then True
         else if list_ex (\<lambda>indicator.
                    str_contains text_lower indicator
                    \<and> \<not> list_ex (str_contains url_lower) downloadable_extensions)
                  non_file_indicators
         then False
         else False))"

section \<open>Filename resolver: \<open>get_filename_from_url_or_text\<close>\<close>

text \<open>The URL with its query string removed (the local variable \<open>url_path\<close>).\<close>

definition url_path_of :: "string \<Rightarrow> string" where
  "url_path_of url = (if str_contains url ''?'' then hd (split_on CHR ''?'' url) else url)"

text \<open>The test that sends the resolver to the anchor text.\<close>

definition unusable :: "string \<Rightarrow> bool" where
  "unusable filename = (filename = [] \<or> isdigit filename \<or> \<not> str_contains filename ''.'')"

text \<open>The anchor text, stripped, without a leading \<open>download \<close> in any letter case.\<close>

definition text_fallback :: "string \<Rightarrow> string" where
  "text_fallback text =
     (let filename = strip text
      in if startswith (lower filename) ''download '' then drop 9 filename else filename)"

definition get_filename_from_url_or_text :: "string \<Rightarrow> string \<Rightarrow> string" where
  "get_filename_from_url_or_text url text =
     (let url_path = url_path_of url;
          filename = basename url_path;
          filename =
            (if unusable filename then
               (let filename = text_fallback text
                in if \<not> str_contains filename ''.'' \<and> str_contains url_path ''.'' then
                     (let url_parts = split_on CHR ''.'' url_path
                      in if length url_parts > 1 then
                           (let ext = CHR ''.'' # last url_parts
                            in if length ext \<le> 5 then filename @ ext else filename)
                         else filename)
                   else filename)
             else filename);
          filename = sanitize filename
      in if filename \<noteq> [] then filename else ''downloaded_file'')"

section \<open>The environment: file system, network, parsed markup\<close>

text \<open>
  Exceptions are values. Only the exception classes that the program can meet are listed.
\<close>

datatype error =
    ConnectionError
  | HTTPError
  | ChunkedEncodingError
  | ValueError
  | KeyError
  | FileNotFoundError
  | FileExistsError
  | NotADirectoryError
  | OSError

text \<open>
  An \<open>a\<close> element as BeautifulSoup presents it: the \<open>href\<close> and \<open>download\<close> attributes
  (absent, or present with a value) and the element's text.
\<close>

record anchor =
  a_href :: "string option"
  a_download :: "string option"
  a_text :: string

text \<open>
  What one \<open>session.get\<close> gives when it does not raise: the URL after redirects, whether
  \<open>raise_for_status\<close> passes, the anchors of the body as parsed markup, whether the
  \<open>content-length\<close> header is something \<open>int\<close> accepts, the chunks that
  \<open>iter_content\<close> delivers and whether the stream breaks after them.
\<close>

record response =
  final_url :: string
  status_ok :: bool
  anchors :: "anchor list"
  content_length_ok :: bool
  chunks :: "string list"
  stream_fails :: bool

text \<open>
  The network answers the \<open>n\<close>-th request of the run for a URL, so it may change over time.
\<close>

type_synonym network = "nat \<Rightarrow> string \<Rightarrow> error + response"

text \<open>
  The state the program changes: the files on disk with their bytes, the directories, and
  the log of the URLs requested so far. Paths are compared as strings. The paths that
  \<open>open(path, 'wb')\<close> refuses (a name that is too long, a place without write permission)
  are part of the state; the program never changes them.
\<close>

record world =
  files :: "string \<rightharpoonup> string"
  dirs :: "string set"
  gets :: "string list"
  unwritable :: "string set"

definition session_get :: "network \<Rightarrow> string \<Rightarrow> world \<Rightarrow> world \<times> (error + response)" where
  "session_get net u w = (w\<lparr>gets := gets w @ [u]\<rparr>, net (length (gets w)) u)"

text \<open>
  The directories above \<open>d\<close>, nearest first: \<open>os.makedirs\<close> goes up with \<open>os.path.split\<close>
  as long as a head is left.
\<close>

function parents :: "string \<Rightarrow> string list" where
  "parents d =
     (if dirname d \<noteq> [] \<and> length (dirname d) < length d
      then dirname d # parents (dirname d)
      else [])"
  by pat_completeness auto
termination
  by (relation "measure length") auto

declare parents.simps [simp del]

text \<open>
  \<open>os.makedirs(d, exist_ok=True)\<close>: the empty path raises, a path that is a file raises,
  a path below a file raises; otherwise \<open>d\<close> and every directory above it exist afterwards.
\<close>

definition makedirs :: "string \<Rightarrow> world \<Rightarrow> error + world" where
  "makedirs d w =
     (if d = [] then Inl FileNotFoundError
      else if d \<in> dom (files w) then Inl FileExistsError
      else if list_ex (\<lambda>a. a \<in> dom (files w)) (parents d) then Inl NotADirectoryError
      else Inr (w\<lparr>dirs := dirs w \<union> set (d # parents d)\<rparr>))"

definition path_exists :: "world \<Rightarrow> string \<Rightarrow> bool" where
  "path_exists w p = (p \<in> dom (files w) \<or> p \<in> dirs w)"

definition BASE_URL :: string where
  "BASE_URL = ''https://thomasmore.instructure.com''"

definition DOWNLOAD_DIR :: string where
  "DOWNLOAD_DIR = ''CanvasDownloads''"

definition download_marker :: string where
  "download_marker = ''/download?download_frd=1''"

text \<open>The step \<open>if u.startswith("/"): u = BASE_URL + u\<close>.\<close>

definition absolutize :: "string \<Rightarrow> string" where
  "absolutize u = (if startswith u ''/'' then BASE_URL @ u else u)"

section \<open>Redirect resolver: \<open>resolve_canvas_file_url\<close>\<close>

text \<open>The body of the \<open>try\<close> block.\<close>

definition resolve_try :: "network \<Rightarrow> string \<Rightarrow> world \<Rightarrow> world \<times> (error + string)" where
  "resolve_try net url w =
     (case session_get net url w of
        (w', Inl e) \<Rightarrow> (w', Inl e)
      | (w', Inr r) \<Rightarrow>
          if \<not> status_ok r then (w', Inl HTTPError)
          else if str_contains (final_url r) download_marker then (w', Inr (final_url r))
          else if str_contains (final_url r) ''instructure.com''
                  \<and> (str_contains (final_url r) ''/files/''
                       \<or> str_contains (final_url r) ''/courses/'')
          then
            (case (case find (\<lambda>a. a_download a = Some ''true'') (anchors r) of
                     None \<Rightarrow> None
                   | Some a \<Rightarrow> (case a_href a of
                                  None \<Rightarrow> None
                                | Some h \<Rightarrow> if h = [] then None else Some h)) of
               Some h \<Rightarrow> (w', Inr (absolutize h))
             | None \<Rightarrow>
                 (case find (\<lambda>h. str_contains h download_marker)
                         (List.map_filter a_href (anchors r)) of
                    Some h \<Rightarrow> (w', Inr (absolutize h))
                  | None \<Rightarrow> (w', Inr url)))
          else (w', Inr url))"

text \<open>The \<open>except Exception\<close> handler gives the original URL back.\<close>

definition resolve_canvas_file_url ::
    "network \<Rightarrow> string \<Rightarrow> world \<Rightarrow> world \<times> (error + string)" where
  "resolve_canvas_file_url net url w =
     (case resolve_try net url w of
        (w', Inl e) \<Rightarrow> (w', Inr url)
      | (w', Inr u) \<Rightarrow> (w', Inr u))"

section \<open>Content validator: \<open>validate_file_content\<close>\<close>

definition zip_signatures :: "string list" where
  "zip_signatures =
     [[CHR ''P'', CHR ''K'', CHR 0x03, CHR 0x04],
      [CHR ''P'', CHR ''K'', CHR 0x05, CHR 0x06],
      [CHR ''P'', CHR ''K'', CHR 0x07, CHR 0x08]]"

definition jpeg_signature :: string where
  "jpeg_signature = [CHR 0xFF, CHR 0xD8, CHR 0xFF]"

definition png_signature :: string where
  "png_signature =
     [CHR 0x89, CHR ''P'', CHR ''N'', CHR ''G'', CHR 0x0D, CHR 0x0A, CHR 0x1A, CHR 0x0A]"

text \<open>
  The \<open>if\<close>/\<open>elif\<close> chain over the extension, already lower-cased: \<open>Some\<close> is a \<open>return\<close>
  inside the chain, \<open>None\<close> means that control leaves the chain.
\<close>

definition signature_check :: "string \<Rightarrow> string \<Rightarrow> (bool \<times> string) option" where
  "signature_check header ext =
     (if ext = ''.pdf'' then
        (if \<not> startswith header ''%PDF-'' then
           (if str_contains (lower header) ''<html'' \<or> str_contains (lower header) ''<!doctype''
            then Some (False, ''Downloaded HTML instead of PDF'')
            else Some (False, ''Not a valid PDF file''))
         else None)
      else if ext \<in> set [''.zip'', ''.rar'', ''.7z''] then
        (if \<not> list_ex (startswith header) zip_signatures then
           (if str_contains (lower header) ''<html''
            then Some (False, ''Downloaded HTML instead of archive'')
            else Some (False, ''Not a valid archive file''))
         else None)
      else if ext \<in> set [''.jpg'', ''.jpeg''] then
        (if \<not> startswith header jpeg_signature then
           (if str_contains (lower header) ''<html''
            then Some (False, ''Downloaded HTML instead of image'')
            else Some (False, ''Not a valid JPEG file''))
         else None)
      else if ext = ''.png'' then
        (if \<not> startswith header png_signature then
           (if str_contains (lower header) ''<html''
            then Some (False, ''Downloaded HTML instead of image'')
            else Some (False, ''Not a valid PNG file''))
         else None)
      else None)"

text \<open>The checks on the header that was read.\<close>

definition validate_header :: "string \<Rightarrow> string \<Rightarrow> bool \<times> string" where
  "validate_header header expected_extension =
     (case signature_check header (lower expected_extension) of
        Some r \<Rightarrow> r
      | None \<Rightarrow>
          if str_contains (lower header) ''<html'' \<or> str_contains (lower header) ''<!doctype''
          then (False, ''Downloaded HTML instead of expected file type'')
          else (True, ''File appears valid''))"

text \<open>
  \<open>f.read(1024)\<close> on the opened file; a path that cannot be opened ends in the handler,
  whose message carries the text of the exception (left out here).
\<close>

definition validate_file_content :: "world \<Rightarrow> string \<Rightarrow> string \<Rightarrow> bool \<times> string" where
  "validate_file_content w file_path expected_extension =
     (case files w file_path of
        None \<Rightarrow> (False, ''Could not validate file'')
      | Some content \<Rightarrow> validate_header (take 1024 content) expected_extension)"

section \<open>Downloader: \<open>download_file\<close>\<close>

text \<open>What a call that returns has printed.\<close>

datatype outcome =
    AlreadyDownloaded
  | Downloaded bool string
  | ErrorDownloading error

text \<open>
  The body of the \<open>try\<close> block: the streamed request, the file opened for writing (when
  \<open>open\<close> does not refuse the path, the file exists from then on), the chunks written, then
  the validation.
\<close>

definition fetch_to_file ::
    "network \<Rightarrow> string \<Rightarrow> string \<Rightarrow> world \<Rightarrow> world \<times> (error + bool \<times> string)" where
  "fetch_to_file net resolved_url save_path w =
     (case session_get net resolved_url w of
        (w', Inl e) \<Rightarrow> (w', Inl e)
      | (w', Inr r) \<Rightarrow>
          if \<not> status_ok r then (w', Inl HTTPError)
          else if \<not> content_length_ok r then (w', Inl ValueError)
          else if save_path \<in> unwritable w' then (w', Inl OSError)
          else
            (let w'' = w'\<lparr>files := (files w')(save_path \<mapsto> concat (chunks r))\<rparr>
             in if stream_fails r then (w'', Inl ChunkedEncodingError)
                else (w'', Inr (validate_file_content w'' save_path (splitext_ext save_path)))))"

definition download_file ::
    "network \<Rightarrow> string \<Rightarrow> string \<Rightarrow> world \<Rightarrow> world \<times> (error + outcome)" where
  "download_file net url save_path w =
     (case makedirs (dirname save_path) w of
        Inl e \<Rightarrow> (w, Inl e)
      | Inr w1 \<Rightarrow>
          if path_exists w1 save_path then (w1, Inr AlreadyDownloaded)
          else
            (case resolve_canvas_file_url net url w1 of
               (w2, Inl e) \<Rightarrow> (w2, Inl e)
             | (w2, Inr resolved_url) \<Rightarrow>
                 (case fetch_to_file net resolved_url save_path w2 of
                    (w3, Inl e) \<Rightarrow> (w3, Inr (ErrorDownloading e))
                  | (w3, Inr (is_valid, message)) \<Rightarrow> (w3, Inr (Downloaded is_valid message)))))"

section \<open>File page parser: \<open>parse_file_download_link\<close>\<close>

text \<open>
  The guard of both anchor loops, \<open>not href or href.startswith('#') or
  href.startswith('mailto:')\<close> (the transformer tests \<open>mailto:\<close> before \<open>#\<close>).
\<close>

definition navigation_href :: "string \<Rightarrow> bool" where
  "navigation_href href = (href = [] \<or> startswith href ''#'' \<or> startswith href ''mailto:'')"

text \<open>
  The page is given by its \<open>a\<close> elements in document order. First the element found by
  \<open>soup.find('a', attrs={'download': 'true'})\<close>; reading its \<open>href\<close> raises when the
  attribute is absent.
\<close>

definition explicit_download_link :: "anchor list \<Rightarrow> error + (string \<times> string) option" where
  "explicit_download_link page =
     (case find (\<lambda>a. a_download a = Some ''true'') page of
        None \<Rightarrow> Inr None
      | Some a \<Rightarrow>
          (case a_href a of
             None \<Rightarrow> Inl KeyError
           | Some h \<Rightarrow>
               if str_contains h download_marker then
                 (let file_url = absolutize h;
                      file_name = strip (a_text a);
                      file_name = (if startswith (lower file_name) ''download ''
                                   then drop 8 file_name else file_name);
                      file_name = strip file_name
                  in Inr (Some (file_name, file_url)))
               else Inr None))"

text \<open>The loop over \<open>soup.find_all('a', href=True)\<close>, which returns at the first hit.\<close>

fun scan_file_links :: "anchor list \<Rightarrow> (string \<times> string) option" where
  "scan_file_links [] = None"
| "scan_file_links (a # as) =
     (case a_href a of
        None \<Rightarrow> scan_file_links as
      | Some href \<Rightarrow>
          if navigation_href href then scan_file_links as
          else
            (let full_url = absolutize href;
                 text = strip (a_text a)
             in if is_downloadable_file full_url text
                then Some (get_filename_from_url_or_text full_url text, full_url)
                else scan_file_links as))"

definition parse_file_download_link :: "anchor list \<Rightarrow> error + (string \<times> string) option" where
  "parse_file_download_link page =
     (case explicit_download_link page of
        Inl e \<Rightarrow> Inl e
      | Inr (Some r) \<Rightarrow> Inr (Some r)
      | Inr None \<Rightarrow> Inr (scan_file_links page))"

text \<open>
  The file branch of the loop body of \<open>main\<close> for one module item: the result says
  whether the item was taken as a file. An exception of \<open>download_file\<close> is caught there.
\<close>

definition download_item_file ::
    "network \<Rightarrow> string \<Rightarrow> string \<Rightarrow> anchor list \<Rightarrow> world \<Rightarrow> world \<times> (error + bool)" where
  "download_item_file net course_name module_name page w =
     (case parse_file_download_link page of
        Inl e \<Rightarrow> (w, Inl e)
      | Inr None \<Rightarrow> (w, Inr False)
      | Inr (Some (file_name, download_url)) \<Rightarrow>
          if file_name \<noteq> [] \<and> download_url \<noteq> [] then
            (let fname = sanitize file_name;
                 fname = (if fname = [] then ''downloaded_file'' else fname);
                 save_path =
                   path_join (path_join (path_join DOWNLOAD_DIR course_name) module_name) fname
             in (fst (download_file net download_url save_path w), Inr True))
          else (w, Inr False))"

section \<open>Page content transformer: \<open>parse_canvas_page_content_and_downloads\<close>\<close>

text \<open>
  An entry of \<open>download_links\<close>. The entry holds the \<open>a\<close> element itself; here it is the
  position of the element among the anchors of the body.
\<close>

record link =
  link_name :: string
  link_url :: string
  link_tag :: nat
  link_original_href :: string

text \<open>The first loop, over \<open>soup.find_all('a', href=True)\<close>; \<open>i\<close> counts the elements.\<close>

fun find_download_links :: "nat \<Rightarrow> anchor list \<Rightarrow> link list" where
  "find_download_links i [] = []"
| "find_download_links i (a # as) =
     (case a_href a of
        None \<Rightarrow> find_download_links (Suc i) as
      | Some href \<Rightarrow>
          if navigation_href href then find_download_links (Suc i) as
          else
            (let full_url = absolutize href;
                 text = strip (a_text a)
             in if is_downloadable_file full_url text
                then \<lparr>link_name = get_filename_from_url_or_text full_url text,
                      link_url = full_url,
                      link_tag = i,
                      link_original_href = href\<rparr> # find_download_links (Suc i) as
                else find_download_links (Suc i) as))"

text \<open>\<open>a_tag['href'] = name\<close> on the element at position \<open>i\<close>.\<close>

definition set_href :: "nat \<Rightarrow> string \<Rightarrow> anchor list \<Rightarrow> anchor list" where
  "set_href i name as = (if i < length as then as[i := (as ! i)\<lparr>a_href := Some name\<rparr>] else as)"

text \<open>
  The second loop: the assignment to \<open>href\<close> is skipped only when \<open>download_file\<close> raises.
\<close>

fun download_and_rewrite ::
    "network \<Rightarrow> string \<Rightarrow> link list \<Rightarrow> world \<times> anchor list \<Rightarrow> world \<times> anchor list" where
  "download_and_rewrite net download_dir [] (w, as) = (w, as)"
| "download_and_rewrite net download_dir (l # ls) (w, as) =
     (let local_path = path_join download_dir (link_name l)
      in case download_file net (link_url l) local_path w of
           (w', Inr r) \<Rightarrow>
             download_and_rewrite net download_dir ls (w', set_href (link_tag l) (link_name l) as)
         | (w', Inl e) \<Rightarrow> download_and_rewrite net download_dir ls (w', as))"

text \<open>
  The transformer. Its argument is the body found by the search for \<open>"body":"..."\<close>, as the
  anchors of the parsed markup (\<open>None\<close> when the search fails); its result stands for the
  markup that is handed to \<open>html2text\<close>.
\<close>

definition parse_canvas_page_content_and_downloads ::
    "network \<Rightarrow> anchor list option \<Rightarrow> string \<Rightarrow> world \<Rightarrow> world \<times> anchor list option" where
  "parse_canvas_page_content_and_downloads net body download_dir w =
     (case body of
        None \<Rightarrow> (w, None)
      | Some as \<Rightarrow>
          (case download_and_rewrite net download_dir (find_download_links 0 as) (w, as) of
             (w', as') \<Rightarrow> (w', Some as')))"

section \<open>Inputs used in the examples\<close>

text \<open>A network on which every request fails, and the state before anything was done.\<close>

definition failing_net :: network where
  "failing_net n u = Inl ConnectionError"

definition empty_world :: world where
  "empty_world = \<lparr>files = Map.empty, dirs = {}, gets = [], unwritable = {}\<rparr>"

text \<open>A network that answers every request with a small PDF.\<close>

definition pdf_response :: response where
  "pdf_response =
     \<lparr>final_url = ''https://example.org/a.pdf'', status_ok = True, anchors = [],
      content_length_ok = True, chunks = [''%PDF-1.4''], stream_fails = False\<rparr>"

definition pdf_net :: network where
  "pdf_net n u = Inr pdf_response"

text \<open>A network that redirects every request to a direct download URL.\<close>

definition marker_response :: response where
  "marker_response =
     \<lparr>final_url = ''https://x.org/files/1/download?download_frd=1'', status_ok = True,
      anchors = [], content_length_ok = True, chunks = [], stream_fails = False\<rparr>"

definition marker_net :: network where
  "marker_net n u = Inr marker_response"

text \<open>The first bytes of a RAR archive (versions 1.5 to 4) and of a 7z archive.\<close>

definition rar_magic :: string where
  "rar_magic = [CHR ''R'', CHR ''a'', CHR ''r'', CHR ''!'', CHR 0x1A, CHR 0x07, CHR 0x00]"

definition sevenzip_magic :: string where
  "sevenzip_magic = [CHR ''7'', CHR ''z'', CHR 0xBC, CHR 0xAF, CHR 0x27, CHR 0x1C]"

text \<open>Three anchors: a link to a PDF, a fragment link, and a marked download link.\<close>

definition notes_anchor :: anchor where
  "notes_anchor =
     \<lparr>a_href = Some ''https://example.org/notes.pdf'', a_download = None, a_text = ''Notes''\<rparr>"

definition top_anchor :: anchor where
  "top_anchor = \<lparr>a_href = Some ''#top'', a_download = None, a_text = ''Download top''\<rparr>"

definition fragment_download_anchor :: anchor where
  "fragment_download_anchor =
     \<lparr>a_href = Some ''#/download?download_frd=1'', a_download = Some ''true'',
      a_text = ''Download x.pdf''\<rparr>"

text \<open>An anchor that has an \<open>href\<close> on which the guard of the anchor loops holds.\<close>

definition navigation_anchor :: "anchor \<Rightarrow> bool" where
  "navigation_anchor a = (case a_href a of None \<Rightarrow> False | Some h \<Rightarrow> navigation_href h)"

section \<open>Facts about strings\<close>

lemma str_contains_sublist: "str_contains s sub \<longleftrightarrow> sublist sub s"
  by (induction s) (auto simp: sublist_Cons_right)

lemma str_contains_char: "str_contains s [c] \<longleftrightarrow> c \<in> set s"
  by (induction s) auto

lemma lower_append: "lower (a @ b) = lower a @ lower b"
  by (simp add: lower_def)

lemma lower_extension: "ext \<in> set downloadable_extensions \<Longrightarrow> lower ext = ext"
  by (auto simp: downloadable_extensions_def lower_def lower_char_def)

lemma lower_question: "lower (CHR ''?'' # r) = CHR ''?'' # lower r"
  by (simp add: lower_def lower_char_def)

lemma lower_hash: "lower (CHR ''#'' # r) = CHR ''#'' # lower r"
  by (simp add: lower_def lower_char_def)

lemma split_on_nonempty: "split_on c s \<noteq> []"
  by (induction s) (auto split: list.splits)

lemma split_on_more: "c \<in> set s \<Longrightarrow> length (split_on c s) > 1"
  by (induction s) (auto split: list.splits simp: split_on_nonempty)

section \<open>What the patterns match\<close>

lemma re_search_iff: "re_search p s \<longleftrightarrow> (\<exists>a b. s = a @ b \<and> match_here p b)"
proof
  assume "re_search p s"
  then obtain n where "match_here p (drop n s)"
    unfolding re_search_def list_ex_iff by blast
  then have "s = take n s @ drop n s \<and> match_here p (drop n s)"
    by simp
  then show "\<exists>a b. s = a @ b \<and> match_here p b"
    by blast
next
  assume "\<exists>a b. s = a @ b \<and> match_here p b"
  then obtain a b where "s = a @ b" "match_here p b"
    by blast
  then have "length a \<in> set [0..<Suc (length s)] \<and> match_here p (drop (length a) s)"
    by simp
  then show "re_search p s"
    unfolding re_search_def list_ex_iff by blast
qed

lemma match_lit: "match_here (Lit l # rs) s \<longleftrightarrow> (\<exists>r. s = l @ r \<and> match_here rs r)"
  by (auto simp: prefix_def)

text \<open>\<open>\d+\<close> takes a non-empty run of digits, \<open>.*\<close> any run without a line break.\<close>

lemma match_digits_iff:
  "match_here (Digits # rs) s \<longleftrightarrow> (\<exists>d r. s = d @ r \<and> isdigit d \<and> match_here rs r)"
proof
  assume "match_here (Digits # rs) s"
  then obtain n where n: "1 \<le> n" "n \<le> length (takeWhile is_digit s)" "match_here rs (drop n s)"
    by (auto simp: list_ex_iff)
  have "take n s = take n (takeWhile is_digit s @ dropWhile is_digit s)"
    by simp
  also have "\<dots> = take n (takeWhile is_digit s)"
    using n(2) by (simp del: takeWhile_dropWhile_id)
  finally have t: "take n s = take n (takeWhile is_digit s)" .
  have "set (take n s) \<subseteq> set (takeWhile is_digit s)"
    unfolding t by (rule set_take_subset)
  then have "list_all is_digit (take n s)"
    by (auto simp: list_all_iff dest: set_takeWhileD)
  moreover have "take n s \<noteq> []"
    using n(1) n(2) t by auto
  ultimately have "s = take n s @ drop n s \<and> isdigit (take n s) \<and> match_here rs (drop n s)"
    using n(3) by (simp add: isdigit_def)
  then show "\<exists>d r. s = d @ r \<and> isdigit d \<and> match_here rs r"
    by blast
next
  assume "\<exists>d r. s = d @ r \<and> isdigit d \<and> match_here rs r"
  then obtain d r where s: "s = d @ r" and d: "d \<noteq> []" "list_all is_digit d" and r: "match_here rs r"
    by (auto simp: isdigit_def)
  have "takeWhile is_digit s = d @ takeWhile is_digit r"
    unfolding s using d(2) by (intro takeWhile_append2) (simp add: list_all_iff)
  then have "length (takeWhile is_digit s) = length d + length (takeWhile is_digit r)"
    by simp
  moreover have "0 < length d"
    using d(1) by simp
  ultimately have "1 \<le> length d \<and> length d < Suc (length (takeWhile is_digit s))"
    by arith
  then have "length d \<in> set [1..<Suc (length (takeWhile is_digit s))]"
    by (simp only: set_upt atLeastLessThan_iff)
  moreover have "match_here rs (drop (length d) s)"
    using r s by simp
  ultimately show "match_here (Digits # rs) s"
    unfolding match_here.simps list_ex_iff by blast
qed

lemma match_anystar_iff:
  "match_here (AnyStar # rs) s \<longleftrightarrow> (\<exists>m r. s = m @ r \<and> newline \<notin> set m \<and> match_here rs r)"
proof
  assume "match_here (AnyStar # rs) s"
  then obtain n where
    "n \<in> set [0..<Suc (length (takeWhile (\<lambda>c. c \<noteq> newline) s))]" "match_here rs (drop n s)"
    unfolding match_here.simps list_ex_iff by blast
  then have "n < Suc (length (takeWhile (\<lambda>c. c \<noteq> newline) s))" "match_here rs (drop n s)"
    by (simp_all only: set_upt atLeastLessThan_iff)
  then have n: "n \<le> length (takeWhile (\<lambda>c. c \<noteq> newline) s)" "match_here rs (drop n s)"
    by arith+
  have "take n s = take n (takeWhile (\<lambda>c. c \<noteq> newline) s @ dropWhile (\<lambda>c. c \<noteq> newline) s)"
    by simp
  also have "\<dots> = take n (takeWhile (\<lambda>c. c \<noteq> newline) s)"
    using n(1) by (simp del: takeWhile_dropWhile_id)
  finally have t: "take n s = take n (takeWhile (\<lambda>c. c \<noteq> newline) s)" .
  have "set (take n s) \<subseteq> set (takeWhile (\<lambda>c. c \<noteq> newline) s)"
    unfolding t by (rule set_take_subset)
  then have "newline \<notin> set (take n s)"
    by (auto dest: set_takeWhileD)
  then have "s = take n s @ drop n s \<and> newline \<notin> set (take n s) \<and> match_here rs (drop n s)"
    using n(2) by simp
  then show "\<exists>m r. s = m @ r \<and> newline \<notin> set m \<and> match_here rs r"
    by blast
next
  assume "\<exists>m r. s = m @ r \<and> newline \<notin> set m \<and> match_here rs r"
  then obtain m r where s: "s = m @ r" and m: "newline \<notin> set m" and r: "match_here rs r"
    by blast
  have "takeWhile (\<lambda>c. c \<noteq> newline) s = m @ takeWhile (\<lambda>c. c \<noteq> newline) r"
    unfolding s using m by (intro takeWhile_append2) auto
  then have "length (takeWhile (\<lambda>c. c \<noteq> newline) s) = length m + length (takeWhile (\<lambda>c. c \<noteq> newline) r)"
    by simp
  then have "0 \<le> length m \<and> length m < Suc (length (takeWhile (\<lambda>c. c \<noteq> newline) s))"
    by arith
  then have "length m \<in> set [0..<Suc (length (takeWhile (\<lambda>c. c \<noteq> newline) s))]"
    by (simp only: set_upt atLeastLessThan_iff)
  moreover have "match_here rs (drop (length m) s)"
    using r s by simp
  ultimately show "match_here (AnyStar # rs) s"
    unfolding match_here.simps list_ex_iff by blast
qed

lemma match_end: "match_here [] s"
  by simp

lemmas match_shapes = re_search_iff match_lit match_digits_iff match_anystar_iff match_end

text \<open>Each pattern of \<open>canvas_file_patterns\<close> as a shape of the URL.\<close>

lemma course_file_found:
  "re_search [Lit ''/courses/'', Digits, Lit ''/files/'', Digits] url
     \<longleftrightarrow> (\<exists>a c f r. url = a @ ''/courses/'' @ c @ ''/files/'' @ f @ r \<and> isdigit c \<and> isdigit f)"
  unfolding match_shapes by (simp, blast)

lemma file_found:
  "re_search [Lit ''/files/'', Digits] url
     \<longleftrightarrow> (\<exists>a f r. url = a @ ''/files/'' @ f @ r \<and> isdigit f)"
  unfolding match_shapes by (simp, blast)

lemma download_marker_found:
  "re_search [Lit ''/download?download_frd=1''] url
     \<longleftrightarrow> (\<exists>a r. url = a @ ''/download?download_frd=1'' @ r)"
  unfolding match_shapes by (simp, blast)

lemma file_contents_found:
  "re_search [Lit ''/courses/'', Digits, Lit ''/file_contents/''] url
     \<longleftrightarrow> (\<exists>a c r. url = a @ ''/courses/'' @ c @ ''/file_contents/'' @ r \<and> isdigit c)"
  unfolding match_shapes by (simp, blast)

lemma user_file_found:
  "re_search [Lit ''/users/'', Digits, Lit ''/files/'', Digits] url
     \<longleftrightarrow> (\<exists>a u f r. url = a @ ''/users/'' @ u @ ''/files/'' @ f @ r \<and> isdigit u \<and> isdigit f)"
  unfolding match_shapes by (simp, blast)

lemma host_files_found:
  "re_search [Lit ''instructure.com'', AnyStar, Lit ''files''] url
     \<longleftrightarrow> (\<exists>a m r. url = a @ ''instructure.com'' @ m @ ''files'' @ r \<and> newline \<notin> set m)"
  unfolding match_shapes by (simp, blast)

text \<open>Some pattern of the list is found exactly when the URL has one of the six shapes.\<close>

lemma pattern_found_iff:
  "list_ex (\<lambda>pattern. re_search pattern url) canvas_file_patterns \<longleftrightarrow>
     (\<exists>a c f r. url = a @ ''/courses/'' @ c @ ''/files/'' @ f @ r \<and> isdigit c \<and> isdigit f)
     \<or> (\<exists>a f r. url = a @ ''/files/'' @ f @ r \<and> isdigit f)
     \<or> (\<exists>a r. url = a @ ''/download?download_frd=1'' @ r)
     \<or> (\<exists>a c r. url = a @ ''/courses/'' @ c @ ''/file_contents/'' @ r \<and> isdigit c)
     \<or> (\<exists>a u f r. url = a @ ''/users/'' @ u @ ''/files/'' @ f @ r \<and> isdigit u \<and> isdigit f)
     \<or> (\<exists>a m r. url = a @ ''instructure.com'' @ m @ ''files'' @ r \<and> newline \<notin> set m)"
  unfolding canvas_file_patterns_def list_ex_Cons_iff list_ex_Nil_iff
    course_file_found file_found download_marker_found file_contents_found user_file_found
    host_files_found
  by simp

section \<open>The classifier\<close>

text \<open>
  A URL is a path followed by nothing, by a query or by a fragment. When the path ends in
  an extension of the list, the lower-cased URL passes the extension test.
\<close>

lemma has_extension_path:
  assumes ext: "ext \<in> set downloadable_extensions"
    and url: "url = path @ rest"
    and rest: "rest = [] \<or> prefix ''?'' rest \<or> prefix ''#'' rest"
    and suf: "suffix ext path"
  shows "has_extension (lower url) ext"
proof -
  from suf obtain p where p: "path = p @ ext"
    by (auto simp: suffix_def)
  have low: "lower path = lower p @ ext"
    using p lower_extension [OF ext] by (simp add: lower_append)
  from rest consider "rest = []" | r where "rest = CHR ''?'' # r" | r where "rest = CHR ''#'' # r"
    by (auto simp: prefix_def)
  then show ?thesis
  proof cases
    case 1
    then have "lower url = lower p @ ext"
      using url low by simp
    then show ?thesis
      by (simp add: has_extension_def endswith_def suffix_def)
  next
    case (2 r)
    then have "lower url = lower p @ (ext @ ''?'') @ lower r"
      using url low by (simp add: lower_append lower_question)
    then have "sublist (ext @ ''?'') (lower url)"
      unfolding sublist_def by blast
    then show ?thesis
      by (simp add: has_extension_def str_contains_sublist)
  next
    case (3 r)
    then have "lower url = lower p @ (ext @ ''#'') @ lower r"
      using url low by (simp add: lower_append lower_hash)
    then have "sublist (ext @ ''#'') (lower url)"
      unfolding sublist_def by blast
    then show ?thesis
      by (simp add: has_extension_def str_contains_sublist)
  qed
qed

text \<open>
  Claim C2. Whenever the path of a URL, that is the URL without its query and fragment,
  ends in an extension of the allow-list, \<open>is_downloadable_file\<close> answers true, whatever
  the anchor text is: the extension test comes first and no keyword of the text, file
  indicating or navigational, is looked at.
\<close>

theorem extension_dominates:
  assumes "ext \<in> set downloadable_extensions"
    and "url = path @ rest"
    and "rest = [] \<or> prefix ''?'' rest \<or> prefix ''#'' rest"
    and "suffix ext path"
  shows "is_downloadable_file url text"
proof -
  have "list_ex (has_extension (lower url)) downloadable_extensions"
    using has_extension_path [OF assms] assms(1) by (auto simp: list_ex_iff)
  then show ?thesis
    by (simp add: is_downloadable_file_def Let_def)
qed

theorem extension_dominates_witness:
  "''.pdf'' \<in> set downloadable_extensions
   \<and> ''https://x/a.pdf?v=1'' = ''https://x/a.pdf'' @ ''?v=1''
   \<and> prefix ''?'' ''?v=1''
   \<and> suffix ''.pdf'' ''https://x/a.pdf''
   \<and> is_downloadable_file ''https://x/a.pdf?v=1'' ''course wiki page''"
proof -
  have 1: "''.pdf'' \<in> set downloadable_extensions"
    by (simp add: downloadable_extensions_def)
  have 2: "''https://x/a.pdf?v=1'' = ''https://x/a.pdf'' @ ''?v=1''"
    by simp
  have 3: "''?v=1'' = [] \<or> prefix ''?'' ''?v=1'' \<or> prefix ''#'' ''?v=1''"
    by simp
  have 4: "suffix ''.pdf'' ''https://x/a.pdf''"
    by (simp add: suffix_def)
  show ?thesis
    using extension_dominates [OF 1 2 3 4, of "''course wiki page''"] 1 4 by simp
qed

text \<open>
  Claim C8, amended. A URL in which one of the six platform patterns of the program occurs
  is classified as downloadable for every anchor text, also when no extension of the
  allow-list occurs in it. The patterns are: \<open>/courses/\<close>, digits, \<open>/files/\<close>, digits;
  \<open>/files/\<close>, digits; \<open>/download?download_frd=1\<close>; \<open>/courses/\<close>, digits, \<open>/file_contents/\<close>;
  \<open>/users/\<close>, digits, \<open>/files/\<close>, digits; \<open>instructure.com\<close> followed on the same line by
  \<open>files\<close>.
\<close>

theorem platform_url_downloadable:
  assumes "(\<exists>a c f r. url = a @ ''/courses/'' @ c @ ''/files/'' @ f @ r \<and> isdigit c \<and> isdigit f)
     \<or> (\<exists>a f r. url = a @ ''/files/'' @ f @ r \<and> isdigit f)
     \<or> (\<exists>a r. url = a @ ''/download?download_frd=1'' @ r)
     \<or> (\<exists>a c r. url = a @ ''/courses/'' @ c @ ''/file_contents/'' @ r \<and> isdigit c)
     \<or> (\<exists>a u f r. url = a @ ''/users/'' @ u @ ''/files/'' @ f @ r \<and> isdigit u \<and> isdigit f)
     \<or> (\<exists>a m r. url = a @ ''instructure.com'' @ m @ ''files'' @ r \<and> newline \<notin> set m)"
  shows "is_downloadable_file url text"
proof -
  have "list_ex (\<lambda>pattern. re_search pattern url) canvas_file_patterns"
    using assms by (simp only: pattern_found_iff)
  then show ?thesis
    by (simp add: is_downloadable_file_def Let_def)
qed

theorem platform_url_downloadable_witness:
  "isdigit ''12''
   \<and> \<not> list_ex (has_extension (lower ''https://x.org/courses/12/file_contents/notes''))
         downloadable_extensions
   \<and> is_downloadable_file ''https://x.org/courses/12/file_contents/notes'' ''course page''"
proof -
  have 1: "isdigit ''12''"
    by (simp add: isdigit_def is_digit_def)
  have 2: "\<not> list_ex (has_extension (lower ''https://x.org/courses/12/file_contents/notes''))
         downloadable_extensions"
    by code_simp
  have "''https://x.org/courses/12/file_contents/notes''
          = ''https://x.org'' @ ''/courses/'' @ ''12'' @ ''/file_contents/'' @ ''notes''"
    by simp
  with 1 have h: "\<exists>a c r. ''https://x.org/courses/12/file_contents/notes''
          = a @ ''/courses/'' @ c @ ''/file_contents/'' @ r \<and> isdigit c"
    by blast
  have "is_downloadable_file ''https://x.org/courses/12/file_contents/notes'' ''course page''"
    by (rule platform_url_downloadable, rule disjI2, rule disjI2, rule disjI2, rule disjI1, rule h)
  then show ?thesis
    using 1 2 by simp
qed

text \<open>
  Claim C8 as it is written fails: a URL with the query marker \<open>download_frd=1\<close> but not
  \<open>/download?\<close> before it, a URL with \<open>/file_contents/\<close> that is not under \<open>/courses/\<close> and
  digits, and a URL whose host has a \<open>files\<close> segment but is not \<open>instructure.com\<close> are
  classified as navigational when the anchor text has no keyword.
\<close>

theorem loose_platform_urls_not_downloadable:
  "\<not> is_downloadable_file ''https://x.org/get?download_frd=1'' ''Week 1''
   \<and> \<not> is_downloadable_file ''https://x.org/users/5/file_contents/notes'' ''Week 1''
   \<and> \<not> is_downloadable_file ''https://files.x.org/abc'' ''Week 1''"
  by code_simp

section \<open>The filename resolver\<close>

text \<open>
  Claim C6. \<open>get_filename_from_url_or_text\<close> never returns the empty string, and for the
  URL \<open>https://x/files/42/download?x=1\<close> with the anchor text \<open>Download Syllabus.pdf\<close> it
  returns \<open>Syllabus.pdf\<close>: the text is used, without its leading \<open>Download \<close>.
\<close>

theorem filename_never_empty:
  "get_filename_from_url_or_text url text \<noteq> []
   \<and> get_filename_from_url_or_text ''https://x/files/42/download?x=1'' ''Download Syllabus.pdf''
       = ''Syllabus.pdf''"
proof
  show "get_filename_from_url_or_text url text \<noteq> []"
    by (simp add: get_filename_from_url_or_text_def Let_def)
  show "get_filename_from_url_or_text ''https://x/files/42/download?x=1'' ''Download Syllabus.pdf''
       = ''Syllabus.pdf''"
    by code_simp
qed

text \<open>
  Claim C9. When the last path segment of the URL is unusable, the anchor text has no dot
  and the URL without its query has one, the text after the last dot of that URL is
  appended to the anchor text, with a dot, exactly when it has at most four characters
  (the test \<open>len(ext) <= 5\<close> counts the dot); a longer one is never appended. The
  cleaned result, or the sentinel when nothing is left, is returned.
\<close>

theorem extension_appended_iff_short:
  assumes "unusable (basename (url_path_of url))"
    and "\<not> str_contains (text_fallback text) ''.''"
    and "str_contains (url_path_of url) ''.''"
  shows "get_filename_from_url_or_text url text =
           (let ext = last (split_on CHR ''.'' (url_path_of url));
                filename = sanitize (if length ext \<le> 4
                                     then text_fallback text @ CHR ''.'' # ext
                                     else text_fallback text)
            in if filename \<noteq> [] then filename else ''downloaded_file'')"
proof -
  have "CHR ''.'' \<in> set (url_path_of url)"
    using assms(3) by (simp add: str_contains_char)
  then have "length (split_on CHR ''.'' (url_path_of url)) > 1"
    by (rule split_on_more)
  then show ?thesis
    using assms by (simp add: get_filename_from_url_or_text_def Let_def)
qed

theorem extension_appended_iff_short_witness:
  "unusable (basename (url_path_of ''https://x/report.pdf/''))
   \<and> \<not> str_contains (text_fallback ''Report'') ''.''
   \<and> str_contains (url_path_of ''https://x/report.pdf/'') ''.''
   \<and> get_filename_from_url_or_text ''https://x/report.pdf/'' ''Report'' = ''Report.pdf''
   \<and> unusable (basename (url_path_of ''https://x.example/files/42''))
   \<and> \<not> str_contains (text_fallback ''Notes'') ''.''
   \<and> str_contains (url_path_of ''https://x.example/files/42'') ''.''
   \<and> get_filename_from_url_or_text ''https://x.example/files/42'' ''Notes'' = ''Notes''"
proof -
  have 1: "unusable (basename (url_path_of ''https://x/report.pdf/''))"
    by code_simp
  have 2: "\<not> str_contains (text_fallback ''Report'') ''.''"
    by code_simp
  have 3: "str_contains (url_path_of ''https://x/report.pdf/'') ''.''"
    by code_simp
  have 4: "(let ext = last (split_on CHR ''.'' (url_path_of ''https://x/report.pdf/''));
                filename = sanitize (if length ext \<le> 4
                                     then text_fallback ''Report'' @ CHR ''.'' # ext
                                     else text_fallback ''Report'')
            in if filename \<noteq> [] then filename else ''downloaded_file'') = ''Report.pdf''"
    by code_simp
  have 5: "unusable (basename (url_path_of ''https://x.example/files/42''))"
    by code_simp
  have 6: "\<not> str_contains (text_fallback ''Notes'') ''.''"
    by code_simp
  have 7: "str_contains (url_path_of ''https://x.example/files/42'') ''.''"
    by code_simp
  have 8: "(let ext = last (split_on CHR ''.'' (url_path_of ''https://x.example/files/42''));
                filename = sanitize (if length ext \<le> 4
                                     then text_fallback ''Notes'' @ CHR ''.'' # ext
                                     else text_fallback ''Notes'')
            in if filename \<noteq> [] then filename else ''downloaded_file'') = ''Notes''"
    by code_simp
  show ?thesis
    using extension_appended_iff_short [OF 1 2 3] extension_appended_iff_short [OF 5 6 7]
      1 2 3 4 5 6 7 8 by simp
qed

section \<open>The redirect resolver\<close>

text \<open>
  Claim C7. \<open>resolve_canvas_file_url\<close> always returns a URL and never raises. When the
  request of its probe raises, or the answer has an error status, it returns the URL it
  was given; when the probe succeeds and the URL after redirects contains the direct
  download marker, it returns that URL as it is.
\<close>

theorem resolver_total:
  "(\<exists>u. snd (resolve_canvas_file_url net url w) = Inr u)
   \<and> (\<forall>e. net (length (gets w)) url = Inl e
          \<longrightarrow> snd (resolve_canvas_file_url net url w) = Inr url)
   \<and> (\<forall>r. net (length (gets w)) url = Inr r \<and> \<not> status_ok r
          \<longrightarrow> snd (resolve_canvas_file_url net url w) = Inr url)
   \<and> (\<forall>r. net (length (gets w)) url = Inr r \<and> status_ok r
              \<and> str_contains (final_url r) download_marker
          \<longrightarrow> snd (resolve_canvas_file_url net url w) = Inr (final_url r))"
  by (auto simp: resolve_canvas_file_url_def resolve_try_def session_get_def
           split: prod.splits sum.splits option.splits if_splits)

theorem resolver_total_witness:
  "snd (resolve_canvas_file_url failing_net ''https://x.org/files/1'' empty_world)
     = Inr ''https://x.org/files/1''
   \<and> snd (resolve_canvas_file_url marker_net ''https://x.org/files/1'' empty_world)
     = Inr ''https://x.org/files/1/download?download_frd=1''"
proof -
  have 1: "failing_net (length (gets empty_world)) ''https://x.org/files/1'' = Inl ConnectionError"
    by (simp add: failing_net_def)
  have 2: "marker_net (length (gets empty_world)) ''https://x.org/files/1'' = Inr marker_response
           \<and> status_ok marker_response
           \<and> str_contains (final_url marker_response) download_marker"
    by (simp add: marker_net_def marker_response_def download_marker_def)
  have 3: "final_url marker_response = ''https://x.org/files/1/download?download_frd=1''"
    by (simp add: marker_response_def)
  show ?thesis
    using resolver_total [of failing_net "''https://x.org/files/1''" empty_world]
      resolver_total [of marker_net "''https://x.org/files/1''" empty_world] 1 2 3
    by metis
qed

section \<open>The content validator\<close>

text \<open>
  A header that starts with \<open><html\<close> under the extension \<open>.pdf\<close> is reported as HTML
  received instead of a PDF; the verdict depends on the first 1024 bytes only; a PDF
  header in which neither \<open><html\<close> nor \<open><!doctype\<close> occurs is accepted.
\<close>

lemma html_as_pdf_rejected:
  assumes "startswith header ''<html''"
  shows "validate_header header ''.pdf'' = (False, ''Downloaded HTML instead of PDF'')"
proof -
  from assms obtain r where h: "header = ''<html'' @ r"
    by (auto simp: startswith_def prefix_def)
  have "lower header = [] @ ''<html'' @ lower r"
    unfolding h lower_append by (simp add: lower_def lower_char_def)
  then have "sublist ''<html'' (lower header)"
    unfolding sublist_def by blast
  then have c: "str_contains (lower header) ''<html''"
    by (simp add: str_contains_sublist)
  have n: "\<not> startswith header ''%PDF-''"
    using h by (simp add: startswith_def)
  have l: "lower ''.pdf'' = ''.pdf''"
    by (simp add: lower_def lower_char_def)
  show ?thesis
    using c n by (simp add: validate_header_def signature_check_def l)
qed

lemma validation_reads_1024:
  assumes "files w p = Some c" and "files w' p = Some c'" and "take 1024 c = take 1024 c'"
  shows "validate_file_content w p e = validate_file_content w' p e"
  using assms by (simp add: validate_file_content_def)

lemma pdf_without_html_accepted:
  assumes "startswith header ''%PDF-''"
    and "\<not> str_contains (lower header) ''<html''"
    and "\<not> str_contains (lower header) ''<!doctype''"
  shows "validate_header header ''.pdf'' = (True, ''File appears valid'')"
proof -
  have l: "lower ''.pdf'' = ''.pdf''"
    by (simp add: lower_def lower_char_def)
  show ?thesis
    using assms by (simp add: validate_header_def signature_check_def l)
qed

text \<open>
  Claim C4 says that every file starting with \<open>%PDF-\<close> validates as true under the
  extension \<open>.pdf\<close>. The program does not do that: a header that passes the signature test
  leaves the \<open>if\<close>/\<open>elif\<close> chain and reaches the HTML test written for the other file types,
  so a PDF whose first 1024 bytes contain \<open><html\<close> is reported invalid.
\<close>

theorem pdf_with_html_text_rejected:
  "validate_file_content (empty_world\<lparr>files := [''a.pdf'' \<mapsto> ''%PDF-1.4 <html>'']\<rparr>)
       ''a.pdf'' ''.pdf''
     = (False, ''Downloaded HTML instead of expected file type'')"
  by (simp add: validate_file_content_def validate_header_def signature_check_def
        lower_def lower_char_def startswith_def empty_world_def)

text \<open>
  Claim C5 says that each archive extension is checked against the signature of its own
  format and that a genuine archive is never reported invalid. The program tests the three
  ZIP signatures for \<open>.zip\<close>, \<open>.rar\<close> and \<open>.7z\<close> alike: a file with the RAR signature
  under \<open>.rar\<close> and a file with the 7z signature under \<open>.7z\<close> are both reported invalid.
\<close>

theorem rar_and_7z_rejected:
  "validate_file_content (empty_world\<lparr>files := [''a.rar'' \<mapsto> rar_magic]\<rparr>) ''a.rar'' ''.rar''
     = (False, ''Not a valid archive file'')
   \<and> validate_file_content (empty_world\<lparr>files := [''a.7z'' \<mapsto> sevenzip_magic]\<rparr>)
         ''a.7z'' ''.7z''
     = (False, ''Not a valid archive file'')"
  by (simp add: validate_file_content_def validate_header_def signature_check_def
        lower_def lower_char_def startswith_def empty_world_def rar_magic_def sevenzip_magic_def
        zip_signatures_def)

section \<open>The downloader\<close>

lemma download_file_existing:
  assumes "path_exists w p"
  shows "gets (fst (download_file net url p w)) = gets w
         \<and> files (fst (download_file net url p w)) = files w"
  using assms
  by (auto simp: download_file_def makedirs_def path_exists_def split: if_splits)

lemma fetch_to_file_exists:
  "snd (fetch_to_file net u p w) = Inr v \<Longrightarrow> p \<in> dom (files (fst (fetch_to_file net u p w)))"
  by (auto simp: fetch_to_file_def session_get_def Let_def split: sum.splits if_splits)

text \<open>A call that reports a download leaves the file on disk.\<close>

lemma download_file_downloaded_exists:
  assumes "snd (download_file net url p w) = Inr (Downloaded ok msg)"
  shows "path_exists (fst (download_file net url p w)) p"
proof (cases "makedirs (dirname p) w")
  case (Inl e)
  then show ?thesis using assms by (simp add: download_file_def)
next
  case (Inr w1)
  show ?thesis
  proof (cases "path_exists w1 p")
    case True
    then show ?thesis using assms Inr by (simp add: download_file_def)
  next
    case False
    obtain w2 r2 where res: "resolve_canvas_file_url net url w1 = (w2, r2)"
      by (cases "resolve_canvas_file_url net url w1")
    show ?thesis
    proof (cases r2)
      case (Inl e)
      then show ?thesis using assms Inr False res by (simp add: download_file_def)
    next
      case (Inr u)
      obtain w3 r3 where f: "fetch_to_file net u p w2 = (w3, r3)"
        by (cases "fetch_to_file net u p w2")
      show ?thesis
      proof (cases r3)
        case (Inl e)
        then show ?thesis
          using assms \<open>makedirs (dirname p) w = Inr w1\<close> False res Inr f
          by (simp add: download_file_def)
      next
        case (Inr v)
        then have "p \<in> dom (files w3)"
          using fetch_to_file_exists [of net u p w2 v] f by simp
        then show ?thesis
          using \<open>makedirs (dirname p) w = Inr w1\<close> False res \<open>r2 = Inr u\<close> f Inr
          by (simp add: download_file_def path_exists_def split: prod.splits)
      qed
    qed
  qed
qed

text \<open>What the resolver and the body of the \<open>try\<close> block do to the state.\<close>

lemma resolve_effect:
  "fst (resolve_canvas_file_url net url w) = w\<lparr>gets := gets w @ [url]\<rparr>
   \<and> (\<exists>u. snd (resolve_canvas_file_url net url w) = Inr u)"
  by (auto simp: resolve_canvas_file_url_def resolve_try_def session_get_def
           split: prod.splits sum.splits option.splits if_splits)

lemma fetch_effect:
  "gets (fst (fetch_to_file net u p w)) = gets w @ [u]
   \<and> dirs (fst (fetch_to_file net u p w)) = dirs w
   \<and> unwritable (fst (fetch_to_file net u p w)) = unwritable w
   \<and> (files (fst (fetch_to_file net u p w)) = files w
       \<or> p \<in> dom (files (fst (fetch_to_file net u p w))))"
  by (auto simp: fetch_to_file_def session_get_def Let_def split: sum.splits if_splits)

text \<open>A call that finds the save path absent sends two requests and never raises.\<close>

lemma download_file_absent:
  assumes m: "makedirs (dirname p) w = Inr w0" and a: "\<not> path_exists w0 p"
  shows "\<exists>u. gets (fst (download_file net url p w)) = gets w @ [url, u]"
    and "dirs (fst (download_file net url p w)) = dirs w0"
    and "files (fst (download_file net url p w)) = files w
         \<or> p \<in> dom (files (fst (download_file net url p w)))"
    and "\<exists>r. snd (download_file net url p w) = Inr r"
proof -
  obtain w2 r2 where res: "resolve_canvas_file_url net url w0 = (w2, r2)"
    by (cases "resolve_canvas_file_url net url w0")
  from resolve_effect [of net url w0] res obtain u
    where w2: "w2 = w0\<lparr>gets := gets w0 @ [url]\<rparr>" and r2: "r2 = Inr u"
    by auto
  obtain w3 r3 where f: "fetch_to_file net u p w2 = (w3, r3)"
    by (cases "fetch_to_file net u p w2")
  have d: "fst (download_file net url p w) = w3"
    using m a res r2 f by (simp add: download_file_def split: sum.splits prod.splits)
  have w0: "gets w0 = gets w" "files w0 = files w"
    using m by (auto simp: makedirs_def split: if_splits)
  from fetch_effect [of net u p w2] f
  have e: "gets w3 = gets w2 @ [u]" "dirs w3 = dirs w2"
    "files w3 = files w2 \<or> p \<in> dom (files w3)"
    by auto
  show "\<exists>u. gets (fst (download_file net url p w)) = gets w @ [url, u]"
    using d e(1) w2 w0 by simp
  show "dirs (fst (download_file net url p w)) = dirs w0"
    using d e(2) w2 by simp
  show "files (fst (download_file net url p w)) = files w
         \<or> p \<in> dom (files (fst (download_file net url p w)))"
    using d e(3) w2 w0 by auto
  show "\<exists>r. snd (download_file net url p w) = Inr r"
    using m a res r2 f by (simp add: download_file_def split: sum.splits prod.splits)
qed

lemma makedirs_again:
  assumes "makedirs d w = Inr w0" and "files w1 = files w" and "dirs w1 = dirs w0"
  shows "\<exists>w2. makedirs d w1 = Inr w2 \<and> dirs w2 = dirs w1 \<and> files w2 = files w1
           \<and> gets w2 = gets w1"
  using assms by (auto simp: makedirs_def split: if_splits)

text \<open>After a failed fetch that left no file, the next call sends its requests again.\<close>

lemma download_file_retry:
  assumes r: "snd (download_file net url p w) = Inr (ErrorDownloading e)"
    and a: "\<not> path_exists (fst (download_file net url p w)) p"
  shows "files (fst (download_file net url p w)) = files w
         \<and> (\<exists>u. gets (fst (download_file net url' p (fst (download_file net url p w))))
                  = gets (fst (download_file net url p w)) @ [url', u])"
proof -
  let ?w1 = "fst (download_file net url p w)"
  obtain w0 where m: "makedirs (dirname p) w = Inr w0"
    using r by (cases "makedirs (dirname p) w") (simp_all add: download_file_def)
  have n: "\<not> path_exists w0 p"
    using r m by (auto simp: download_file_def)
  have f: "files ?w1 = files w" and d: "dirs ?w1 = dirs w0"
    using download_file_absent(2,3) [OF m n, of net url] a by (auto simp: path_exists_def)
  from makedirs_again [OF m f d] obtain w2
    where m2: "makedirs (dirname p) ?w1 = Inr w2"
      and w2: "dirs w2 = dirs ?w1" "files w2 = files ?w1" "gets w2 = gets ?w1"
    by blast
  have "\<not> path_exists w2 p"
    using a w2 by (simp add: path_exists_def)
  from download_file_absent(1) [OF m2 this, of net url'] f show ?thesis
    by simp
qed

text \<open>
  Claim C3, amended. When the save path exists already, \<open>download_file\<close> sends no request
  and leaves every file as it is. When a call has reported a download, a second call with
  the same save path sends no request and leaves every file byte-identical. When a call
  reports a failed fetch and the save path does not exist afterwards, the call has written
  no file, and the next call with the same save path sends its two requests, the probe of
  the resolver and the download, again.
\<close>

theorem existing_file_not_fetched_again:
  "(path_exists w p \<longrightarrow>
      gets (fst (download_file net url p w)) = gets w
      \<and> files (fst (download_file net url p w)) = files w)
   \<and> (\<forall>ok msg. snd (download_file net url p w) = Inr (Downloaded ok msg) \<longrightarrow>
        gets (fst (download_file net url' p (fst (download_file net url p w))))
          = gets (fst (download_file net url p w))
        \<and> files (fst (download_file net url' p (fst (download_file net url p w))))
          = files (fst (download_file net url p w)))
   \<and> (\<forall>e. snd (download_file net url p w) = Inr (ErrorDownloading e)
            \<and> \<not> path_exists (fst (download_file net url p w)) p \<longrightarrow>
        files (fst (download_file net url p w)) = files w
        \<and> (\<exists>u. gets (fst (download_file net url' p (fst (download_file net url p w))))
                 = gets (fst (download_file net url p w)) @ [url', u]))"
  using download_file_existing download_file_downloaded_exists download_file_retry by blast

theorem existing_file_not_fetched_again_witness:
  "snd (download_file pdf_net ''https://example.org/a.pdf'' ''d/a.pdf'' empty_world)
     = Inr (Downloaded True ''File appears valid'')
   \<and> path_exists
        (fst (download_file pdf_net ''https://example.org/a.pdf'' ''d/a.pdf'' empty_world)) ''d/a.pdf''
   \<and> gets (fst (download_file pdf_net ''https://example.org/a.pdf'' ''d/a.pdf''
              (fst (download_file pdf_net ''https://example.org/a.pdf'' ''d/a.pdf'' empty_world))))
     = [''https://example.org/a.pdf'', ''https://example.org/a.pdf'']
   \<and> snd (download_file failing_net ''https://example.org/a.pdf'' ''d/a.pdf'' empty_world)
     = Inr (ErrorDownloading ConnectionError)
   \<and> \<not> path_exists
        (fst (download_file failing_net ''https://example.org/a.pdf'' ''d/a.pdf'' empty_world))
        ''d/a.pdf''
   \<and> length (gets (fst (download_file failing_net ''https://example.org/b.pdf'' ''d/a.pdf''
              (fst (download_file failing_net ''https://example.org/a.pdf'' ''d/a.pdf''
                      empty_world))))) = 4"
proof -
  have 1: "snd (download_file pdf_net ''https://example.org/a.pdf'' ''d/a.pdf'' empty_world)
     = Inr (Downloaded True ''File appears valid'')"
    by code_simp
  have 2: "path_exists
        (fst (download_file pdf_net ''https://example.org/a.pdf'' ''d/a.pdf'' empty_world)) ''d/a.pdf''"
    by code_simp
  have 3: "gets (fst (download_file pdf_net ''https://example.org/a.pdf'' ''d/a.pdf'' empty_world))
     = [''https://example.org/a.pdf'', ''https://example.org/a.pdf'']"
    by code_simp
  have 4: "snd (download_file failing_net ''https://example.org/a.pdf'' ''d/a.pdf'' empty_world)
     = Inr (ErrorDownloading ConnectionError)"
    by code_simp
  have 5: "\<not> path_exists
        (fst (download_file failing_net ''https://example.org/a.pdf'' ''d/a.pdf'' empty_world))
        ''d/a.pdf''"
    by code_simp
  have 6: "gets (fst (download_file failing_net ''https://example.org/a.pdf'' ''d/a.pdf''
                        empty_world))
     = [''https://example.org/a.pdf'', ''https://example.org/a.pdf'']"
    by code_simp
  have a: "gets (fst (download_file pdf_net ''https://example.org/a.pdf'' ''d/a.pdf''
              (fst (download_file pdf_net ''https://example.org/a.pdf'' ''d/a.pdf'' empty_world))))
     = [''https://example.org/a.pdf'', ''https://example.org/a.pdf'']"
    using existing_file_not_fetched_again
            [of "fst (download_file pdf_net ''https://example.org/a.pdf'' ''d/a.pdf'' empty_world)"
                "''d/a.pdf''" pdf_net "''https://example.org/a.pdf''" "''https://example.org/a.pdf''"]
      2 3 by simp
  have "\<exists>u. gets (fst (download_file failing_net ''https://example.org/b.pdf'' ''d/a.pdf''
              (fst (download_file failing_net ''https://example.org/a.pdf'' ''d/a.pdf''
                      empty_world))))
     = gets (fst (download_file failing_net ''https://example.org/a.pdf'' ''d/a.pdf'' empty_world))
         @ [''https://example.org/b.pdf'', u]"
    using existing_file_not_fetched_again
            [of empty_world "''d/a.pdf''" failing_net "''https://example.org/a.pdf''"
                "''https://example.org/b.pdf''"]
      4 5 by blast
  then have b: "length (gets (fst (download_file failing_net ''https://example.org/b.pdf'' ''d/a.pdf''
              (fst (download_file failing_net ''https://example.org/a.pdf'' ''d/a.pdf''
                      empty_world))))) = 4"
    using 6 by auto
  show ?thesis
    using 1 2 a 4 5 b by simp
qed

text \<open>
  Claim C3 as it is written fails: on a network where every request fails, the first call
  sends two requests (the probe of the resolver and the download) and leaves no file, and
  the second call with the same save path sends both again.
\<close>

theorem failed_download_fetched_again:
  "gets (fst (download_file failing_net ''https://example.org/a.pdf'' ''d/a.pdf'' empty_world))
     = [''https://example.org/a.pdf'', ''https://example.org/a.pdf'']
   \<and> \<not> path_exists
         (fst (download_file failing_net ''https://example.org/a.pdf'' ''d/a.pdf'' empty_world))
         ''d/a.pdf''
   \<and> gets (fst (download_file failing_net ''https://example.org/a.pdf'' ''d/a.pdf''
              (fst (download_file failing_net ''https://example.org/a.pdf'' ''d/a.pdf'' empty_world))))
     = [''https://example.org/a.pdf'', ''https://example.org/a.pdf'',
        ''https://example.org/a.pdf'', ''https://example.org/a.pdf'']"
  by code_simp

section \<open>The page content transformer and the file page parser\<close>

text \<open>
  Claim C1 says that an anchor whose download fails keeps its remote \<open>href\<close>. The program
  does not do that for a failed request: \<open>download_file\<close> catches the exception itself and
  returns, so the transformer rewrites the anchor to the local name although no file was
  written.
\<close>

theorem failed_download_still_rewritten:
  "snd (parse_canvas_page_content_and_downloads failing_net (Some [notes_anchor])
          ''CanvasDownloads/c/m'' empty_world)
     = Some [notes_anchor\<lparr>a_href := Some ''notes.pdf''\<rparr>]
   \<and> \<not> path_exists
         (fst (parse_canvas_page_content_and_downloads failing_net (Some [notes_anchor])
                 ''CanvasDownloads/c/m'' empty_world))
         ''CanvasDownloads/c/m/notes.pdf''"
  by code_simp

lemma set_href_length: "length (set_href i name as) = length as"
  by (simp add: set_href_def)

lemma set_href_other: "j \<noteq> i \<Longrightarrow> set_href i name as ! j = as ! j"
  by (simp add: set_href_def)

text \<open>The second loop changes only the anchors its links point to.\<close>

lemma download_and_rewrite_frame:
  "download_and_rewrite net d ls (w, as) = (w', as') \<Longrightarrow>
     length as' = length as \<and> (\<forall>j. j \<notin> link_tag ` set ls \<longrightarrow> as' ! j = as ! j)"
proof (induction ls arbitrary: w as)
  case Nil
  then show ?case by simp
next
  case (Cons l ls)
  obtain w1 r where d: "download_file net (link_url l) (path_join d (link_name l)) w = (w1, r)"
    by (cases "download_file net (link_url l) (path_join d (link_name l)) w")
  show ?case
  proof (cases r)
    case (Inl e)
    then have "download_and_rewrite net d ls (w1, as) = (w', as')"
      using Cons.prems d by (simp add: Let_def)
    from Cons.IH [OF this] show ?thesis by simp
  next
    case (Inr v)
    then have "download_and_rewrite net d ls (w1, set_href (link_tag l) (link_name l) as) = (w', as')"
      using Cons.prems d by (simp add: Let_def)
    from Cons.IH [OF this] show ?thesis
      by (simp add: set_href_length set_href_other)
  qed
qed

text \<open>The first loop builds links for anchors that passed the guard only.\<close>

lemma find_download_links_tag:
  "l \<in> set (find_download_links k as) \<Longrightarrow>
     k \<le> link_tag l \<and> link_tag l < k + length as
     \<and> \<not> navigation_anchor (as ! (link_tag l - k))"
proof (induction as arbitrary: k)
  case Nil
  then show ?case by simp
next
  case (Cons a as)
  show ?case
  proof (cases "l \<in> set (find_download_links (Suc k) as)")
    case True
    from Cons.IH [OF this] show ?thesis
      by (auto simp: Suc_diff_le)
  next
    case False
    then have "link_tag l = k \<and> \<not> navigation_anchor a"
      using Cons.prems
      by (auto simp: navigation_anchor_def Let_def split: option.splits if_splits)
    then show ?thesis by simp
  qed
qed

lemma scan_file_links_filter:
  "scan_file_links (filter (\<lambda>a. \<not> navigation_anchor a) as) = scan_file_links as"
  by (induction as) (auto simp: navigation_anchor_def Let_def split: option.splits)

text \<open>
  The anchor that \<open>soup.find\<close> returns for \<open>download="true"\<close> is the file of the page as
  soon as its \<open>href\<close> contains the direct download marker; nothing else about the \<open>href\<close>
  is tested.
\<close>

lemma explicit_download_taken:
  assumes "find (\<lambda>a. a_download a = Some ''true'') page = Some a"
    and "a_href a = Some h"
    and "str_contains h download_marker"
  shows "parse_file_download_link page =
           Inr (Some (strip (if startswith (lower (strip (a_text a))) ''download ''
                             then drop 8 (strip (a_text a))
                             else strip (a_text a)),
                      absolutize h))"
  using assms
  by (simp add: parse_file_download_link_def explicit_download_link_def Let_def)

text \<open>
  Claim C10, amended. In the traversal of a page by the transformer and in the anchor loop
  of the file page parser, an anchor whose \<open>href\<close> is empty, starts with \<open>#\<close> or starts with
  \<open>mailto:\<close> is skipped: no download link is built for it, the transformer returns it
  unchanged, and removing such anchors from a file page does not change what the loop
  finds. The first anchor marked \<open>download="true"\<close>, which the file page parser looks for
  before its loop, is returned as the file of the page whenever its \<open>href\<close> contains
  \<open>/download?download_frd=1\<close>, whatever the \<open>href\<close> starts with.
\<close>

theorem navigation_anchors_pass_through:
  "(\<forall>l \<in> set (find_download_links 0 as).
       link_tag l < length as \<and> \<not> navigation_anchor (as ! link_tag l))
   \<and> (\<exists>w' as'. parse_canvas_page_content_and_downloads net (Some as) dir w = (w', Some as')
          \<and> length as' = length as
          \<and> (\<forall>i < length as. navigation_anchor (as ! i) \<longrightarrow> as' ! i = as ! i))
   \<and> scan_file_links (filter (\<lambda>a. \<not> navigation_anchor a) as) = scan_file_links as
   \<and> (\<forall>a h. find (\<lambda>a. a_download a = Some ''true'') as = Some a \<and> a_href a = Some h
              \<and> str_contains h download_marker \<longrightarrow>
          parse_file_download_link as =
            Inr (Some (strip (if startswith (lower (strip (a_text a))) ''download ''
                              then drop 8 (strip (a_text a))
                              else strip (a_text a)),
                       absolutize h)))"
proof (intro conjI)
  show tags: "\<forall>l \<in> set (find_download_links 0 as).
       link_tag l < length as \<and> \<not> navigation_anchor (as ! link_tag l)"
    using find_download_links_tag [of _ 0 as] by auto
  obtain w' as' where
    run: "download_and_rewrite net dir (find_download_links 0 as) (w, as) = (w', as')"
    by (cases "download_and_rewrite net dir (find_download_links 0 as) (w, as)")
  have frame: "length as' = length as"
    "\<And>j. j \<notin> link_tag ` set (find_download_links 0 as) \<Longrightarrow> as' ! j = as ! j"
    using download_and_rewrite_frame [OF run] by auto
  have "\<forall>i < length as. navigation_anchor (as ! i) \<longrightarrow> as' ! i = as ! i"
  proof (intro allI impI)
    fix i
    assume "i < length as" and nav: "navigation_anchor (as ! i)"
    have "i \<notin> link_tag ` set (find_download_links 0 as)"
      using tags nav by auto
    then show "as' ! i = as ! i"
      by (rule frame(2))
  qed
  then show "\<exists>w' as'. parse_canvas_page_content_and_downloads net (Some as) dir w = (w', Some as')
          \<and> length as' = length as
          \<and> (\<forall>i < length as. navigation_anchor (as ! i) \<longrightarrow> as' ! i = as ! i)"
    using run frame(1) by (simp add: parse_canvas_page_content_and_downloads_def)
  show "scan_file_links (filter (\<lambda>a. \<not> navigation_anchor a) as) = scan_file_links as"
    by (rule scan_file_links_filter)
  show "\<forall>a h. find (\<lambda>a. a_download a = Some ''true'') as = Some a \<and> a_href a = Some h
              \<and> str_contains h download_marker \<longrightarrow>
          parse_file_download_link as =
            Inr (Some (strip (if startswith (lower (strip (a_text a))) ''download ''
                              then drop 8 (strip (a_text a))
                              else strip (a_text a)),
                       absolutize h))"
    using explicit_download_taken by blast
qed

theorem navigation_anchors_pass_through_witness:
  "navigation_anchor ([top_anchor, notes_anchor] ! 0)
   \<and> is_downloadable_file ''#top'' ''Download top''
   \<and> snd (parse_canvas_page_content_and_downloads failing_net (Some [top_anchor, notes_anchor])
            ''d'' empty_world) \<noteq> None
   \<and> the (snd (parse_canvas_page_content_and_downloads failing_net
                  (Some [top_anchor, notes_anchor]) ''d'' empty_world)) ! 0 = top_anchor
   \<and> find (\<lambda>a. a_download a = Some ''true'') [fragment_download_anchor]
       = Some fragment_download_anchor
   \<and> a_href fragment_download_anchor = Some ''#/download?download_frd=1''
   \<and> str_contains ''#/download?download_frd=1'' download_marker
   \<and> parse_file_download_link [fragment_download_anchor]
       = Inr (Some (''x.pdf'', ''#/download?download_frd=1''))"
proof -
  have 1: "navigation_anchor ([top_anchor, notes_anchor] ! 0)"
    by code_simp
  have 2: "is_downloadable_file ''#top'' ''Download top''"
    by code_simp
  have 3: "(0::nat) < length [top_anchor, notes_anchor]"
    by simp
  from navigation_anchors_pass_through [of "[top_anchor, notes_anchor]" failing_net "''d''" empty_world]
  obtain w' as' where
    r: "parse_canvas_page_content_and_downloads failing_net (Some [top_anchor, notes_anchor])
          ''d'' empty_world = (w', Some as')"
    and k: "\<forall>i < length [top_anchor, notes_anchor].
              navigation_anchor ([top_anchor, notes_anchor] ! i) \<longrightarrow> as' ! i = [top_anchor, notes_anchor] ! i"
    by blast
  from k 1 3 have 4: "as' ! 0 = top_anchor"
    by fastforce
  have 5: "find (\<lambda>a. a_download a = Some ''true'') [fragment_download_anchor]
       = Some fragment_download_anchor"
    by (simp add: fragment_download_anchor_def)
  have 6: "a_href fragment_download_anchor = Some ''#/download?download_frd=1''"
    by (simp add: fragment_download_anchor_def)
  have 7: "str_contains ''#/download?download_frd=1'' download_marker"
    by code_simp
  have 8: "strip (if startswith (lower (strip (a_text fragment_download_anchor))) ''download ''
                  then drop 8 (strip (a_text fragment_download_anchor))
                  else strip (a_text fragment_download_anchor)) = ''x.pdf''"
    by code_simp
  have 9: "absolutize ''#/download?download_frd=1'' = ''#/download?download_frd=1''"
    by code_simp
  have "parse_file_download_link [fragment_download_anchor]
       = Inr (Some (''x.pdf'', ''#/download?download_frd=1''))"
    using navigation_anchors_pass_through [of "[fragment_download_anchor]" failing_net "''d''" empty_world]
      5 6 7 8 9 by metis
  then show ?thesis
    using 1 2 r 4 5 6 7 by simp
qed

text \<open>
  Claim C10 as it is written fails for the file page parser: an anchor marked
  \<open>download="true"\<close> whose \<open>href\<close> starts with \<open>#\<close> and contains the direct download marker
  is returned as the file of the page, and the main loop requests it.
\<close>

theorem explicit_download_anchor_not_filtered:
  "navigation_anchor fragment_download_anchor
   \<and> parse_file_download_link [fragment_download_anchor]
       = Inr (Some (''x.pdf'', ''#/download?download_frd=1''))
   \<and> gets (fst (download_item_file failing_net ''c'' ''m'' [fragment_download_anchor] empty_world))
       = [''#/download?download_frd=1'', ''#/download?download_frd=1'']"
  by code_simp

end
